theory Spec2Isabelle
  imports Complex_Main "HOL-Library.Multiset" "HOL-Library.List_Lexorder" "HOL-Library.Char_ord"
begin

section \<open>The database\<close>

text \<open>
  \<^verbatim>\<open>app.py\<close> talks to a SQL Server database through five tables. A table is the list of
  its rows in storage order; a \<^verbatim>\<open>SELECT\<close> without \<^verbatim>\<open>ORDER BY\<close> returns the rows in that
  order and \<^verbatim>\<open>INSERT\<close> appends. Strings are compared as sequences of code units (a binary
  collation), \<^verbatim>\<open>DECIMAL\<close> columns are exact rationals, all columns are \<^verbatim>\<open>NOT NULL\<close>, and a
  \<^verbatim>\<open>DATETIME\<close> is a day number with a time of day.
\<close>

type_synonym date = int

record datetime =
  dt_date :: date
  dt_seconds :: nat

record users_row =
  u_UserID :: int
  u_Username :: string
  u_Email :: string
  u_PasswordHash :: string
  u_Role :: string

record categories_row =
  c_CategoryID :: int
  c_Name :: string

record menuitems_row =
  m_MenuItemID :: int
  m_Name :: string
  m_CategoryID :: int
  m_Price :: rat
  m_Active :: bool

record orders_row =
  o_OrderID :: int
  o_OrderTime :: datetime
  o_TotalAmount :: rat

record orderdetails_row =
  od_OrderID :: int
  od_MenuItemID :: int
  od_Quantity :: int
  od_UnitPrice :: rat

text \<open>
  \<^verbatim>\<open>UserID\<close> and \<^verbatim>\<open>MenuItemID\<close> are never supplied by an \<^verbatim>\<open>INSERT\<close> of the program: they
  are identity columns, whose next value the database keeps.
\<close>

record database =
  Users :: "users_row list"
  Categories :: "categories_row list"
  MenuItems :: "menuitems_row list"
  Orders :: "orders_row list"
  OrderDetails :: "orderdetails_row list"
  next_UserID :: int
  next_MenuItemID :: int

section \<open>Requests, responses and the state a handler works on\<close>

datatype http_method = GET | POST

record request =
  req_method :: http_method
  req_form :: "(string \<times> string) list"

datatype error = BadRequest | DatabaseError

datatype 'c response = Redirect string | Render string 'c

text \<open>
  The state is the database, the user id the session is bound to (if any), and the flashed
  messages with their categories.
\<close>

record state =
  st_db :: database
  st_session :: "int option"
  st_flashes :: "(string \<times> string) list"

definition flash :: "string \<Rightarrow> string \<Rightarrow> state \<Rightarrow> state" where
  "flash message category st = st\<lparr>st_flashes := st_flashes st @ [(message, category)]\<rparr>"

text \<open>\<^verbatim>\<open>cursor.fetchone()\<close>: the first row of the result, or \<^verbatim>\<open>None\<close>.\<close>

definition fetchone :: "'r list \<Rightarrow> 'r option" where
  "fetchone rows = (case rows of [] \<Rightarrow> None | r # _ \<Rightarrow> Some r)"

text \<open>\<^verbatim>\<open>request.form[key]\<close> raises a 400 error when the key is missing;
  \<^verbatim>\<open>request.form.get(key)\<close> gives \<^verbatim>\<open>None\<close> then. Both read the first value of the key.\<close>

definition form_item :: "(string \<times> string) list \<Rightarrow> string \<Rightarrow> error + string" where
  "form_item f key = (case map_of f key of None \<Rightarrow> Inl BadRequest | Some v \<Rightarrow> Inr v)"

definition form_get :: "(string \<times> string) list \<Rightarrow> string \<Rightarrow> string option" where
  "form_get f key = map_of f key"

definition form_contains :: "(string \<times> string) list \<Rightarrow> string \<Rightarrow> bool" where
  "form_contains f key = (key \<in> set (map fst f))"

text \<open>Python's truth value of \<^verbatim>\<open>None\<close> or a string.\<close>

definition truthy :: "string option \<Rightarrow> bool" where
  "truthy v = (case v of None \<Rightarrow> False | Some s \<Rightarrow> s \<noteq> [])"

section \<open>Flask-Login\<close>

record User =
  user_id :: int
  username :: string
  email :: string
  role :: string

text \<open>
  \<^verbatim>\<open>SELECT UserID, Username, Email, Role FROM Users WHERE UserID = ?\<close>, then \<^verbatim>\<open>fetchone\<close>.
\<close>

definition load_user :: "database \<Rightarrow> int \<Rightarrow> User option" where
  "load_user d uid =
     (case fetchone (filter (\<lambda>u. u_UserID u = uid) (Users d)) of
        Some row \<Rightarrow> Some \<lparr>user_id = u_UserID row, username = u_Username row,
                           email = u_Email row, role = u_Role row\<rparr>
      | None \<Rightarrow> None)"

text \<open>
  Flask-Login's \<^verbatim>\<open>current_user\<close> calls the registered \<^verbatim>\<open>user_loader\<close> on the id the
  session holds. \<^verbatim>\<open>login_required\<close> runs the view when that gives a user. Otherwise it
  calls \<^verbatim>\<open>login_manager.unauthorized()\<close>: the program sets \<^verbatim>\<open>login_view\<close> to \<^verbatim>\<open>"login"\<close> and
  leaves the message at its default, so the message "Please log in to access this page."
  is flashed with the category "message" and the answer is a redirect to the login view.
  The session keeps the id it holds.
\<close>

definition current_user :: "state \<Rightarrow> User option" where
  "current_user st = (case st_session st of None \<Rightarrow> None | Some uid \<Rightarrow> load_user (st_db st) uid)"

definition unauthorized :: "state \<Rightarrow> error + state \<times> 'c response" where
  "unauthorized st =
     Inr (flash ''Please log in to access this page.'' ''message'' st, Redirect ''login'')"

definition login_required ::
  "state \<Rightarrow> (error + state \<times> 'c response) \<Rightarrow> (error + state \<times> 'c response)" where
  "login_required st view =
     (case current_user st of None \<Rightarrow> unauthorized st | Some u \<Rightarrow> view)"

definition login_user :: "User \<Rightarrow> state \<Rightarrow> state" where
  "login_user user st = st\<lparr>st_session := Some (user_id user)\<rparr>"

definition logout_user :: "state \<Rightarrow> state" where
  "logout_user st = st\<lparr>st_session := None\<rparr>"

section \<open>Home page, register, login, logout\<close>

definition index :: "state \<Rightarrow> error + state \<times> unit response" where
  "index st = Inr (st, Render ''base.html'' ())"

text \<open>
  \<^verbatim>\<open>INSERT INTO Users (Username, Email, PasswordHash, Role) VALUES (?, ?, ?, ?)\<close>. The
  program declares no constraint on the table and checks none, so the row is appended
  whatever rows exist already.
\<close>

definition insert_user :: "database \<Rightarrow> string \<Rightarrow> string \<Rightarrow> string \<Rightarrow> string \<Rightarrow> database" where
  "insert_user d uname mail pwhash rl =
     d\<lparr>Users := Users d @ [\<lparr>u_UserID = next_UserID d, u_Username = uname, u_Email = mail,
                             u_PasswordHash = pwhash, u_Role = rl\<rparr>],
       next_UserID := next_UserID d + 1\<rparr>"

text \<open>
  Werkzeug's \<^verbatim>\<open>generate_password_hash\<close> and \<^verbatim>\<open>check_password_hash\<close> are library code:
  the handlers take them as arguments. \<^verbatim>\<open>generate_password_hash\<close> draws a random salt, so
  the argument of \<open>register\<close> is the function of one call, its salt drawn.
\<close>

definition register ::
  "(string \<Rightarrow> string) \<Rightarrow> state \<Rightarrow> request \<Rightarrow> error + state \<times> unit response" where
  "register generate_password_hash st req =
     (if req_method req = POST then
        (case form_item (req_form req) ''username'' of Inl e \<Rightarrow> Inl e | Inr uname \<Rightarrow>
        (case form_item (req_form req) ''email'' of Inl e \<Rightarrow> Inl e | Inr mail \<Rightarrow>
        (case form_item (req_form req) ''password'' of Inl e \<Rightarrow> Inl e | Inr password \<Rightarrow>
           (let rl = ''Customer'';
                password_hash = generate_password_hash password;
                st1 = st\<lparr>st_db := insert_user (st_db st) uname mail password_hash rl\<rparr>
            in Inr (flash ''Registration successful! Please log in.'' ''success'' st1,
                    Redirect ''login'')))))
      else Inr (st, Render ''register.html'' ()))"

definition login ::
  "(string \<Rightarrow> string \<Rightarrow> bool) \<Rightarrow> state \<Rightarrow> request \<Rightarrow> error + state \<times> unit response" where
  "login check_password_hash st req =
     (if req_method req = POST then
        (case form_item (req_form req) ''email'' of Inl e \<Rightarrow> Inl e | Inr mail \<Rightarrow>
        (case form_item (req_form req) ''password'' of Inl e \<Rightarrow> Inl e | Inr password \<Rightarrow>
           (case fetchone (filter (\<lambda>u. u_Email u = mail) (Users (st_db st))) of
              Some row \<Rightarrow>
                (if check_password_hash (u_PasswordHash row) password then
                   (let user = \<lparr>user_id = u_UserID row, username = u_Username row,
                                email = u_Email row, role = u_Role row\<rparr>
                    in Inr (flash ''Logged in successfully!'' ''success'' (login_user user st),
                            Redirect ''index''))
                 else Inr (flash ''Invalid email or password'' ''danger'' st,
                           Render ''login.html'' ()))
            | None \<Rightarrow> Inr (flash ''Invalid email or password'' ''danger'' st,
                          Render ''login.html'' ()))))
      else Inr (st, Render ''login.html'' ()))"

definition logout :: "state \<Rightarrow> error + state \<times> unit response" where
  "logout st = Inr (flash ''You have been logged out.'' ''info'' (logout_user st), Redirect ''login'')"

section \<open>SQL operators\<close>

text \<open>
  An inner \<^verbatim>\<open>JOIN ... ON\<close> pairs every row of the left table with every row of the right
  table that satisfies the condition. \<^verbatim>\<open>ORDER BY\<close> sorts by a key; SQL leaves the order of
  rows with equal keys open, and the model keeps them in their order before the sort.
  \<^verbatim>\<open>GROUP BY\<close> with a \<^verbatim>\<open>SUM\<close> gives one row for each distinct key, holding the sum
  over the rows of that key.
\<close>

definition join_on :: "('a \<Rightarrow> 'b \<Rightarrow> bool) \<Rightarrow> 'a list \<Rightarrow> 'b list \<Rightarrow> ('a \<times> 'b) list" where
  "join_on cond xs ys = concat (map (\<lambda>x. map (Pair x) (filter (cond x) ys)) xs)"

definition order_by :: "('r \<Rightarrow> 'k::linorder) \<Rightarrow> 'r list \<Rightarrow> 'r list" where
  "order_by k rows = sort_key k rows"

definition group_by_sum :: "('r \<Rightarrow> 'k) \<Rightarrow> ('r \<Rightarrow> rat) \<Rightarrow> 'r list \<Rightarrow> ('k \<times> rat) list" where
  "group_by_sum k v rows =
     map (\<lambda>g. (g, sum_list (map v (filter (\<lambda>r. k r = g) rows)))) (remdups (map k rows))"

section \<open>Menu items: list, create, edit, delete\<close>

record menu_list_row =
  r_MenuItemID :: int
  r_Name :: string
  r_CategoryName :: string
  r_Price :: rat
  r_Active :: bool

definition select_menu_list :: "menuitems_row \<times> categories_row \<Rightarrow> menu_list_row" where
  "select_menu_list mc =
     (case mc of (m, c) \<Rightarrow>
        \<lparr>r_MenuItemID = m_MenuItemID m, r_Name = m_Name m, r_CategoryName = c_Name c,
         r_Price = m_Price m, r_Active = m_Active m\<rparr>)"

text \<open>
  \<^verbatim>\<open>SELECT m.MenuItemID, m.Name, c.Name AS CategoryName, m.Price, m.Active
  FROM MenuItems m JOIN Categories c ON m.CategoryID = c.CategoryID ORDER BY m.Name\<close>
\<close>

definition menu_list_items :: "database \<Rightarrow> menu_list_row list" where
  "menu_list_items d =
     map select_menu_list
       (order_by (\<lambda>mc. m_Name (fst mc))
          (join_on (\<lambda>m c. m_CategoryID m = c_CategoryID c) (MenuItems d) (Categories d)))"

definition menu_list :: "state \<Rightarrow> error + state \<times> menu_list_row list response" where
  "menu_list st = Inr (st, Render ''menu_list.html'' (menu_list_items (st_db st)))"

text \<open>
  The handlers pass \<^verbatim>\<open>category_id\<close> and \<^verbatim>\<open>price\<close> to the database as the strings of the
  form; the database converts them to the types of the columns and fails on a string that
  is no number. The two conversions are arguments of the model. \<^verbatim>\<open>Active\<close> is a \<^verbatim>\<open>BIT\<close>
  column, set from the integer 1 or 0.
\<close>

text \<open>
  Modelled from the spec: the schema of the database (its \<^verbatim>\<open>CREATE TABLE\<close> statements) is
  not in \<^verbatim>\<open>app.py\<close>. The spec's data model gives the entities their ids as keys and the
  MenuItem the invariant "category-id must reference existing Category". So the ids of a
  table are distinct and below the next identity value, every MenuItems row refers to a
  Categories row, and the database refuses an \<^verbatim>\<open>INSERT\<close> or \<^verbatim>\<open>UPDATE\<close> of MenuItems that
  would break the reference.
\<close>

definition references_category :: "database \<Rightarrow> int \<Rightarrow> bool" where
  "references_category d cid = (cid \<in> set (map c_CategoryID (Categories d)))"

definition schema_ok :: "database \<Rightarrow> bool" where
  "schema_ok d =
     (distinct (map u_UserID (Users d)) \<and>
      list_all (\<lambda>u. u_UserID u < next_UserID d) (Users d) \<and>
      distinct (map c_CategoryID (Categories d)) \<and>
      distinct (map m_MenuItemID (MenuItems d)) \<and>
      list_all (\<lambda>m. m_MenuItemID m < next_MenuItemID d) (MenuItems d) \<and>
      list_all (\<lambda>m. references_category d (m_CategoryID m)) (MenuItems d))"

text \<open>\<^verbatim>\<open>INSERT INTO MenuItems (Name, CategoryID, Price, Active) VALUES (?, ?, ?, ?)\<close>\<close>

definition insert_menuitem ::
  "(string \<Rightarrow> int option) \<Rightarrow> (string \<Rightarrow> rat option) \<Rightarrow> database \<Rightarrow>
   string \<Rightarrow> string \<Rightarrow> string \<Rightarrow> int \<Rightarrow> error + database" where
  "insert_menuitem to_int to_decimal d nm category_id price act =
     (case to_int category_id of None \<Rightarrow> Inl DatabaseError | Some cid \<Rightarrow>
     (case to_decimal price of None \<Rightarrow> Inl DatabaseError | Some p \<Rightarrow>
        (if references_category d cid then
           Inr (d\<lparr>MenuItems := MenuItems d @
                     [\<lparr>m_MenuItemID = next_MenuItemID d, m_Name = nm, m_CategoryID = cid,
                       m_Price = p, m_Active = (act \<noteq> 0)\<rparr>],
                   next_MenuItemID := next_MenuItemID d + 1\<rparr>)
         else Inl DatabaseError)))"

text \<open>
  \<^verbatim>\<open>UPDATE MenuItems SET Name = ?, CategoryID = ?, Price = ?, Active = ? WHERE MenuItemID = ?\<close>.
  The reference to Categories is checked for the rows the statement changes.
\<close>

definition update_menuitem ::
  "(string \<Rightarrow> int option) \<Rightarrow> (string \<Rightarrow> rat option) \<Rightarrow> database \<Rightarrow>
   string \<Rightarrow> string \<Rightarrow> string \<Rightarrow> int \<Rightarrow> int \<Rightarrow> error + database" where
  "update_menuitem to_int to_decimal d nm category_id price act i =
     (case to_int category_id of None \<Rightarrow> Inl DatabaseError | Some cid \<Rightarrow>
     (case to_decimal price of None \<Rightarrow> Inl DatabaseError | Some p \<Rightarrow>
        (if list_ex (\<lambda>m. m_MenuItemID m = i) (MenuItems d) \<and> \<not> references_category d cid
         then Inl DatabaseError
         else Inr (d\<lparr>MenuItems :=
                       map (\<lambda>m. if m_MenuItemID m = i
                                 then m\<lparr>m_Name := nm, m_CategoryID := cid, m_Price := p,
                                        m_Active := (act \<noteq> 0)\<rparr>
                                 else m)
                           (MenuItems d)\<rparr>))))"

text \<open>\<^verbatim>\<open>DELETE FROM MenuItems WHERE MenuItemID = ?\<close>\<close>

definition delete_menuitem :: "database \<Rightarrow> int \<Rightarrow> database" where
  "delete_menuitem d i = d\<lparr>MenuItems := filter (\<lambda>m. m_MenuItemID m \<noteq> i) (MenuItems d)\<rparr>"

type_synonym menu_form = "categories_row list \<times> menuitems_row option"

definition menu_create ::
  "(string \<Rightarrow> int option) \<Rightarrow> (string \<Rightarrow> rat option) \<Rightarrow> state \<Rightarrow> request \<Rightarrow>
   error + state \<times> menu_form response" where
  "menu_create to_int to_decimal st req =
     (let categories = Categories (st_db st) in
      if req_method req = POST then
        (case form_item (req_form req) ''name'' of Inl e \<Rightarrow> Inl e | Inr nm \<Rightarrow>
        (case form_item (req_form req) ''category_id'' of Inl e \<Rightarrow> Inl e | Inr category_id \<Rightarrow>
        (case form_item (req_form req) ''price'' of Inl e \<Rightarrow> Inl e | Inr price \<Rightarrow>
           (let act = (if form_contains (req_form req) ''active'' then 1 else 0) in
            (case insert_menuitem to_int to_decimal (st_db st) nm category_id price act of
               Inl e \<Rightarrow> Inl e
             | Inr d \<Rightarrow>
                 Inr (flash ''Menu item created successfully!'' ''success'' (st\<lparr>st_db := d\<rparr>),
                      Redirect ''menu_list''))))))
      else Inr (st, Render ''menu_form.html'' (categories, None)))"

definition menu_edit ::
  "(string \<Rightarrow> int option) \<Rightarrow> (string \<Rightarrow> rat option) \<Rightarrow> int \<Rightarrow> state \<Rightarrow> request \<Rightarrow>
   error + state \<times> menu_form response" where
  "menu_edit to_int to_decimal i st req =
     (let item = fetchone (filter (\<lambda>m. m_MenuItemID m = i) (MenuItems (st_db st)));
          categories = Categories (st_db st) in
      if req_method req = POST then
        (case form_item (req_form req) ''name'' of Inl e \<Rightarrow> Inl e | Inr nm \<Rightarrow>
        (case form_item (req_form req) ''category_id'' of Inl e \<Rightarrow> Inl e | Inr category_id \<Rightarrow>
        (case form_item (req_form req) ''price'' of Inl e \<Rightarrow> Inl e | Inr price \<Rightarrow>
           (let act = (if truthy (form_get (req_form req) ''active'') then 1 else 0) in
            (case update_menuitem to_int to_decimal (st_db st) nm category_id price act i of
               Inl e \<Rightarrow> Inl e
             | Inr d \<Rightarrow>
                 Inr (flash ''Menu item updated successfully!'' ''success'' (st\<lparr>st_db := d\<rparr>),
                      Redirect ''menu_list''))))))
      else Inr (st, Render ''menu_form.html'' (categories, item)))"

definition menu_delete :: "int \<Rightarrow> state \<Rightarrow> error + state \<times> unit response" where
  "menu_delete i st =
     Inr (flash ''Menu item deleted.'' ''info'' (st\<lparr>st_db := delete_menuitem (st_db st) i\<rparr>),
          Redirect ''menu_list'')"

section \<open>Analytics\<close>

text \<open>
  \<^verbatim>\<open>SELECT CAST(OrderTime AS DATE) AS OrderDate, SUM(TotalAmount) AS TotalRevenue
  FROM Orders GROUP BY CAST(OrderTime AS DATE) ORDER BY OrderDate\<close>
\<close>

definition revenue_rows :: "database \<Rightarrow> (date \<times> rat) list" where
  "revenue_rows d =
     order_by fst (group_by_sum (\<lambda>ord. dt_date (o_OrderTime ord)) o_TotalAmount (Orders d))"

text \<open>
  \<^verbatim>\<open>SELECT TOP 5 mi.Name, SUM(od.Quantity * od.UnitPrice) AS TotalRevenue
  FROM OrderDetails od JOIN MenuItems mi ON od.MenuItemID = mi.MenuItemID
  GROUP BY mi.Name ORDER BY TotalRevenue DESC\<close>
\<close>

definition order_items :: "database \<Rightarrow> (orderdetails_row \<times> menuitems_row) list" where
  "order_items d =
     join_on (\<lambda>od mi. od_MenuItemID od = m_MenuItemID mi) (OrderDetails d) (MenuItems d)"

definition line_revenue :: "orderdetails_row \<times> menuitems_row \<Rightarrow> rat" where
  "line_revenue r = of_int (od_Quantity (fst r)) * od_UnitPrice (fst r)"

definition item_revenue_groups :: "database \<Rightarrow> (string \<times> rat) list" where
  "item_revenue_groups d = group_by_sum (\<lambda>r. m_Name (snd r)) line_revenue (order_items d)"

definition top_rows :: "database \<Rightarrow> (string \<times> rat) list" where
  "top_rows d = take 5 (order_by (\<lambda>r. - snd r) (item_revenue_groups d))"

text \<open>
  The view gets four lists. Python's \<^verbatim>\<open>str\<close> of a date and \<^verbatim>\<open>float\<close> of a decimal are
  arguments of the model.
\<close>

record 'f charts =
  dates :: "string list"
  revenues :: "'f list"
  item_names :: "string list"
  item_revenues :: "'f list"

definition analytics ::
  "(date \<Rightarrow> string) \<Rightarrow> (rat \<Rightarrow> 'f) \<Rightarrow> state \<Rightarrow> error + state \<times> 'f charts response" where
  "analytics str float st =
     Inr (st, Render ''analytics.html''
            \<lparr>dates = map (\<lambda>r. str (fst r)) (revenue_rows (st_db st)),
             revenues = map (\<lambda>r. float (snd r)) (revenue_rows (st_db st)),
             item_names = map fst (top_rows (st_db st)),
             item_revenues = map (\<lambda>r. float (snd r)) (top_rows (st_db st))\<rparr>)"

section \<open>The views behind \<^verbatim>\<open>login_required\<close>\<close>

text \<open>
  The definitions above are the bodies of the view functions. Flask calls the decorated
  functions: every view but \<^verbatim>\<open>register\<close> and \<^verbatim>\<open>login\<close> runs behind \<^verbatim>\<open>login_required\<close>.
\<close>

definition index_view :: "state \<Rightarrow> error + state \<times> unit response" where
  "index_view st = login_required st (index st)"

definition logout_view :: "state \<Rightarrow> error + state \<times> unit response" where
  "logout_view st = login_required st (logout st)"

definition menu_list_view :: "state \<Rightarrow> error + state \<times> menu_list_row list response" where
  "menu_list_view st = login_required st (menu_list st)"

definition menu_create_view ::
  "(string \<Rightarrow> int option) \<Rightarrow> (string \<Rightarrow> rat option) \<Rightarrow> state \<Rightarrow> request \<Rightarrow>
   error + state \<times> menu_form response" where
  "menu_create_view to_int to_decimal st req =
     login_required st (menu_create to_int to_decimal st req)"

definition menu_edit_view ::
  "(string \<Rightarrow> int option) \<Rightarrow> (string \<Rightarrow> rat option) \<Rightarrow> int \<Rightarrow> state \<Rightarrow> request \<Rightarrow>
   error + state \<times> menu_form response" where
  "menu_edit_view to_int to_decimal i st req =
     login_required st (menu_edit to_int to_decimal i st req)"

definition menu_delete_view :: "int \<Rightarrow> state \<Rightarrow> error + state \<times> unit response" where
  "menu_delete_view i st = login_required st (menu_delete i st)"

definition analytics_view ::
  "(date \<Rightarrow> string) \<Rightarrow> (rat \<Rightarrow> 'f) \<Rightarrow> state \<Rightarrow> error + state \<times> 'f charts response" where
  "analytics_view str float st = login_required st (analytics str float st)"

section \<open>Sample data\<close>

text \<open>
  A small database, and simple stand-ins for the library functions the handlers take as
  arguments, on which the theorems below are run.
\<close>

definition sample_generate_password_hash :: "string \<Rightarrow> string \<Rightarrow> string" where
  "sample_generate_password_hash salt password = salt @ CHR ''$'' # password"

definition sample_check_password_hash :: "string \<Rightarrow> string \<Rightarrow> bool" where
  "sample_check_password_hash pwhash password =
     (dropWhile (\<lambda>c. c \<noteq> CHR ''$'') pwhash = CHR ''$'' # password)"

definition sample_to_int :: "string \<Rightarrow> int option" where
  "sample_to_int s = (if s = ''1'' then Some 1 else if s = ''2'' then Some 2 else None)"

definition sample_to_decimal :: "string \<Rightarrow> rat option" where
  "sample_to_decimal s =
     (if s = ''9.99'' then Some (999 / 100) else if s = ''10.99'' then Some (1099 / 100)
      else None)"

definition sample_db :: database where
  "sample_db =
     \<lparr>Users = [\<lparr>u_UserID = 1, u_Username = ''alice'', u_Email = ''alice@example.org'',
                 u_PasswordHash = ''ab$wonderland'', u_Role = ''Customer''\<rparr>],
      Categories = [\<lparr>c_CategoryID = 1, c_Name = ''Mains''\<rparr>,
                    \<lparr>c_CategoryID = 2, c_Name = ''Drinks''\<rparr>],
      MenuItems = [\<lparr>m_MenuItemID = 1, m_Name = ''Pizza'', m_CategoryID = 1, m_Price = 12,
                     m_Active = True\<rparr>,
                   \<lparr>m_MenuItemID = 2, m_Name = ''Cola'', m_CategoryID = 2, m_Price = 5 / 2,
                     m_Active = True\<rparr>],
      Orders = [\<lparr>o_OrderID = 1, o_OrderTime = \<lparr>dt_date = 20, dt_seconds = 43200\<rparr>,
                  o_TotalAmount = 29 / 2\<rparr>,
                \<lparr>o_OrderID = 2, o_OrderTime = \<lparr>dt_date = 19, dt_seconds = 70000\<rparr>,
                  o_TotalAmount = 12\<rparr>,
                \<lparr>o_OrderID = 3, o_OrderTime = \<lparr>dt_date = 20, dt_seconds = 75000\<rparr>,
                  o_TotalAmount = 5\<rparr>],
      OrderDetails = [\<lparr>od_OrderID = 1, od_MenuItemID = 1, od_Quantity = 1, od_UnitPrice = 12\<rparr>,
                      \<lparr>od_OrderID = 1, od_MenuItemID = 2, od_Quantity = 1, od_UnitPrice = 5 / 2\<rparr>,
                      \<lparr>od_OrderID = 2, od_MenuItemID = 1, od_Quantity = 1, od_UnitPrice = 12\<rparr>,
                      \<lparr>od_OrderID = 3, od_MenuItemID = 2, od_Quantity = 2, od_UnitPrice = 5 / 2\<rparr>],
      next_UserID = 2, next_MenuItemID = 3\<rparr>"

definition sample_state :: state where
  "sample_state = \<lparr>st_db = sample_db, st_session = None, st_flashes = []\<rparr>"


section \<open>Lemmas on the SQL operators and the handlers\<close>

lemmas sample_defs = sample_state_def sample_db_def sample_generate_password_hash_def
  sample_check_password_hash_def sample_to_int_def sample_to_decimal_def

lemma fetchone_filter_None: "(fetchone (filter P xs) = None) = (\<forall>x\<in>set xs. \<not> P x)"
  by (induction xs) (auto simp: fetchone_def)

lemma fetchone_filter_Some: "fetchone (filter P xs) = Some x \<Longrightarrow> x \<in> set xs \<and> P x"
  by (induction xs) (auto simp: fetchone_def split: if_splits)

lemma fetchone_filter_append_new:
  "\<forall>x\<in>set xs. \<not> P x \<Longrightarrow> P y \<Longrightarrow> fetchone (filter P (xs @ [y])) = Some y"
  by (induction xs) (auto simp: fetchone_def)

lemma register_post:
  assumes "req_method req = POST"
    and "map_of (req_form req) ''username'' = Some uname"
    and "map_of (req_form req) ''email'' = Some mail"
    and "map_of (req_form req) ''password'' = Some pw"
  shows "register gen st req =
     Inr (flash ''Registration successful! Please log in.'' ''success''
            (st\<lparr>st_db := insert_user (st_db st) uname mail (gen pw) ''Customer''\<rparr>),
          Redirect ''login'')"
  using assms by (simp add: register_def form_item_def)

lemma login_post:
  assumes "req_method req = POST"
    and "map_of (req_form req) ''email'' = Some mail"
    and "map_of (req_form req) ''password'' = Some pw"
  shows "login chk st req =
     (case fetchone (filter (\<lambda>u. u_Email u = mail) (Users (st_db st))) of
        Some row \<Rightarrow>
          if chk (u_PasswordHash row) pw
          then Inr (flash ''Logged in successfully!'' ''success''
                      (st\<lparr>st_session := Some (u_UserID row)\<rparr>), Redirect ''index'')
          else Inr (flash ''Invalid email or password'' ''danger'' st, Render ''login.html'' ())
      | None \<Rightarrow> Inr (flash ''Invalid email or password'' ''danger'' st, Render ''login.html'' ()))"
  using assms by (simp add: login_def form_item_def login_user_def split: option.splits)

lemma set_join_on:
  "set (join_on cond xs ys) = {(x, y). x \<in> set xs \<and> y \<in> set ys \<and> cond x y}"
  by (auto simp: join_on_def)


lemma filter_key_single:
  "distinct (map k ys) \<Longrightarrow> y \<in> set ys \<Longrightarrow> filter (\<lambda>c. k c = k y) ys = [y]"
proof (induction ys)
  case Nil
  then show ?case by simp
next
  case (Cons a ys)
  show ?case
  proof (cases "a = y")
    case True
    with Cons.prems have "k y \<notin> k ` set ys" by simp
    then have "\<forall>c\<in>set ys. k c \<noteq> k y" by (metis imageI)
    then have "filter (\<lambda>c. k c = k y) ys = []" by (simp add: filter_empty_conv)
    with True show ?thesis by simp
  next
    case False
    with Cons.prems have y: "y \<in> set ys" by simp
    with Cons.prems have "k a \<noteq> k y" by auto
    note this y
    with Cons show ?thesis by simp
  qed
qed


lemma set_group_by_sum:
  "set (group_by_sum k v rows) =
     (\<lambda>g. (g, sum_list (map v (filter (\<lambda>r. k r = g) rows)))) ` k ` set rows"
  by (auto simp: group_by_sum_def)

lemma map_fst_group_by_sum: "map fst (group_by_sum k v rows) = remdups (map k rows)"
  by (simp add: group_by_sum_def comp_def)

lemma insort_key_fst_map:
  "insort_key fst (g, F g) (map (\<lambda>g. (g, F g)) ks) = map (\<lambda>g. (g, F g)) (insort g ks)"
  by (induction ks) auto

lemma sort_key_fst_map:
  "sort_key fst (map (\<lambda>g. (g, F g)) ks) = map (\<lambda>g. (g, F g)) (sort ks)"
  by (induction ks) (auto simp: insort_key_fst_map)

lemma revenue_rows_eq:
  "revenue_rows d =
     map (\<lambda>dt. (dt, sum_list (map o_TotalAmount
                        (filter (\<lambda>ord. dt_date (o_OrderTime ord) = dt) (Orders d)))))
         (sorted_list_of_set ((\<lambda>ord. dt_date (o_OrderTime ord)) ` set (Orders d)))"
proof -
  have "sorted_list_of_set ((\<lambda>ord. dt_date (o_OrderTime ord)) ` set (Orders d)) =
        sort (remdups (map (\<lambda>ord. dt_date (o_OrderTime ord)) (Orders d)))"
    using sorted_list_of_set_sort_remdups[of "map (\<lambda>ord. dt_date (o_OrderTime ord)) (Orders d)"]
    by simp
  then show ?thesis
    by (simp add: revenue_rows_def order_by_def group_by_sum_def sort_key_fst_map)
qed








lemma mset_remove_key:
  assumes "distinct (map k xs)" and "m \<in> set xs" and "k m = i"
  shows "mset xs = add_mset m (mset (filter (\<lambda>x. k x \<noteq> i) xs))"
proof -
  have "filter (\<lambda>x. k x = i) xs = filter (\<lambda>x. k x = k m) xs"
    using assms(3) by simp
  with filter_key_single[OF assms(1,2)] have one: "filter (\<lambda>x. k x = i) xs = [m]" by simp
  have "mset xs = mset (filter (\<lambda>x. k x = i) xs) + mset (filter (\<lambda>x. \<not> k x = i) xs)"
    by (simp only: mset_filter multiset_partition[symmetric])
  with one show ?thesis by simp
qed

lemma filter_absent_key: "i \<notin> set (map k xs) \<Longrightarrow> filter (\<lambda>x. k x \<noteq> i) xs = xs"
  by (induction xs) auto

lemma set_order_by: "set (order_by k rows) = set rows"
  by (simp add: order_by_def)

lemma distinct_map_fst_group_by_sum: "distinct (map fst (group_by_sum k v rows))"
  by (simp add: map_fst_group_by_sum)

lemma top_rows_subset: "set (top_rows d) \<subseteq> set (item_revenue_groups d)"
  using set_take_subset[of 5 "order_by (\<lambda>r. - snd r) (item_revenue_groups d)"]
  by (simp add: top_rows_def set_order_by)

lemma sorted_wrt_desc_sort_key:
  fixes xs :: "('a \<times> rat) list"
  shows "sorted_wrt (\<lambda>a b. snd b \<le> snd a) (sort_key (\<lambda>r. - snd r) xs)"
proof -
  have "sorted (map (\<lambda>r. - snd r) (sort_key (\<lambda>r. - snd r) xs))" by (rule sorted_sort_key)
  then show ?thesis by (simp add: sorted_map)
qed

lemma top_rows_sorted: "sorted_wrt (\<lambda>a b. snd b \<le> snd a) (top_rows d)"
  unfolding top_rows_def order_by_def
  by (intro sorted_wrt_take sorted_wrt_desc_sort_key)

lemma top_rows_best:
  assumes "g \<in> set (item_revenue_groups d)" and "g \<notin> set (top_rows d)" and "r \<in> set (top_rows d)"
  shows "snd g \<le> snd r"
proof -
  let ?s = "sort_key (\<lambda>r. - snd r) (item_revenue_groups d)"
  have "sorted_wrt (\<lambda>a b. snd b \<le> snd a) (take 5 ?s @ drop 5 ?s)"
    by (simp add: sorted_wrt_desc_sort_key)
  then have ord: "\<forall>x\<in>set (take 5 ?s). \<forall>y\<in>set (drop 5 ?s). snd y \<le> snd x"
    unfolding sorted_wrt_append by blast
  from assms(1) have "g \<in> set (take 5 ?s @ drop 5 ?s)" by simp
  with assms(2) have "g \<in> set (drop 5 ?s)"
    unfolding set_append by (simp add: top_rows_def order_by_def)
  with ord assms(3) show ?thesis by (simp add: top_rows_def order_by_def)
qed






text \<open>Every statement by which the handlers change the database keeps the schema.\<close>

lemma schema_ok_insert_user:
  "schema_ok d \<Longrightarrow> schema_ok (insert_user d uname mail pwhash rl)"
  by (auto simp: schema_ok_def insert_user_def references_category_def list_all_iff)

lemma schema_ok_insert_menuitem:
  "schema_ok d \<Longrightarrow> insert_menuitem to_int to_decimal d nm category_id price act = Inr d' \<Longrightarrow>
   schema_ok d'"
  by (fastforce simp: schema_ok_def insert_menuitem_def references_category_def list_all_iff
      split: option.splits if_splits)

lemma map_id_update:
  "map k (map (\<lambda>m. if k m = i then f m else m) xs) = map k xs" if "\<And>m. k (f m) = k m"
  by (induction xs) (auto simp: that)

lemma schema_ok_update_menuitem:
  assumes "schema_ok d"
    and "update_menuitem to_int to_decimal d nm category_id price act i = Inr d'"
  shows "schema_ok d'"
proof -
  from assms(2) obtain cid p where cid: "to_int category_id = Some cid"
    and p: "to_decimal price = Some p"
    and fk: "\<not> (list_ex (\<lambda>m. m_MenuItemID m = i) (MenuItems d) \<and> \<not> references_category d cid)"
    and d': "d' = d\<lparr>MenuItems :=
                 map (\<lambda>m. if m_MenuItemID m = i
                           then m\<lparr>m_Name := nm, m_CategoryID := cid, m_Price := p,
                                  m_Active := (act \<noteq> 0)\<rparr>
                           else m) (MenuItems d)\<rparr>"
    by (auto simp: update_menuitem_def split: option.splits if_splits)
  have same: "Users d' = Users d" "Categories d' = Categories d"
    "next_UserID d' = next_UserID d" "next_MenuItemID d' = next_MenuItemID d"
    by (simp_all add: d')
  have ids: "map m_MenuItemID (MenuItems d') = map m_MenuItemID (MenuItems d)"
    unfolding d' by (simp add: map_id_update)
  have refs: "references_category d' = references_category d"
    by (simp add: d' references_category_def fun_eq_iff)
  have fk': "list_all (\<lambda>m. references_category d (m_CategoryID m)) (MenuItems d')"
    using assms(1) fk unfolding d'
    by (auto simp: schema_ok_def list_all_iff list_ex_iff)
  have "list_all (\<lambda>m. m_MenuItemID m < next_MenuItemID d) (MenuItems d)"
    using assms(1) by (simp add: schema_ok_def)
  then have "\<forall>x\<in>set (map m_MenuItemID (MenuItems d)). x < next_MenuItemID d"
    by (simp add: list_all_iff)
  then have "\<forall>x\<in>set (map m_MenuItemID (MenuItems d')). x < next_MenuItemID d"
    by (simp only: ids)
  then have lt': "list_all (\<lambda>m. m_MenuItemID m < next_MenuItemID d) (MenuItems d')"
    by (simp add: list_all_iff)
  from assms(1) have "distinct (map m_MenuItemID (MenuItems d'))"
    by (simp only: ids) (simp add: schema_ok_def)
  with assms(1) fk' lt' show ?thesis
    unfolding schema_ok_def refs same by simp
qed

lemma schema_ok_delete_menuitem: "schema_ok d \<Longrightarrow> schema_ok (delete_menuitem d i)"
  by (auto simp: schema_ok_def delete_menuitem_def references_category_def list_all_iff
      distinct_map_filter)

text \<open>The two analytics queries on the sample data.\<close>

lemma sample_order_items:
  "order_items sample_db =
     [(\<lparr>od_OrderID = 1, od_MenuItemID = 1, od_Quantity = 1, od_UnitPrice = 12\<rparr>,
       \<lparr>m_MenuItemID = 1, m_Name = ''Pizza'', m_CategoryID = 1, m_Price = 12, m_Active = True\<rparr>),
      (\<lparr>od_OrderID = 1, od_MenuItemID = 2, od_Quantity = 1, od_UnitPrice = 5 / 2\<rparr>,
       \<lparr>m_MenuItemID = 2, m_Name = ''Cola'', m_CategoryID = 2, m_Price = 5 / 2, m_Active = True\<rparr>),
      (\<lparr>od_OrderID = 2, od_MenuItemID = 1, od_Quantity = 1, od_UnitPrice = 12\<rparr>,
       \<lparr>m_MenuItemID = 1, m_Name = ''Pizza'', m_CategoryID = 1, m_Price = 12, m_Active = True\<rparr>),
      (\<lparr>od_OrderID = 3, od_MenuItemID = 2, od_Quantity = 2, od_UnitPrice = 5 / 2\<rparr>,
       \<lparr>m_MenuItemID = 2, m_Name = ''Cola'', m_CategoryID = 2, m_Price = 5 / 2, m_Active = True\<rparr>)]"
  by (simp add: order_items_def join_on_def sample_db_def)

lemma sample_item_revenue_groups:
  "item_revenue_groups sample_db = [(''Pizza'', 24), (''Cola'', 15 / 2)]"
  unfolding item_revenue_groups_def sample_order_items
  by (simp add: group_by_sum_def line_revenue_def)

lemma sample_top_rows: "top_rows sample_db = [(''Pizza'', 24), (''Cola'', 15 / 2)]"
  unfolding top_rows_def sample_item_revenue_groups by (simp add: order_by_def)

lemma sample_revenue_rows: "revenue_rows sample_db = [(19, 12), (20, 39 / 2)]"
  by (simp add: revenue_rows_def order_by_def group_by_sum_def sample_db_def)

section \<open>Authentication\<close>

text \<open>
  Claim C1. Registering a user and then logging in with the same email and password
  succeeds and binds the session to the id of the new user, when \<^verbatim>\<open>check_password_hash\<close>
  accepts the hash \<^verbatim>\<open>generate_password_hash\<close> made of the password and no row of Users
  holds that email before the registration. The login reads the first row with the email,
  so an older row with the same email would be the one whose hash is checked.
\<close>

theorem register_then_login:
  assumes hash: "chk (gen pw) pw"
    and fresh: "mail \<notin> set (map u_Email (Users (st_db st)))"
    and r: "req_method rreq = POST" "map_of (req_form rreq) ''username'' = Some uname"
       "map_of (req_form rreq) ''email'' = Some mail" "map_of (req_form rreq) ''password'' = Some pw"
    and l: "req_method lreq = POST" "map_of (req_form lreq) ''email'' = Some mail"
       "map_of (req_form lreq) ''password'' = Some pw"
  shows "\<exists>st1 st2. register gen st rreq = Inr (st1, Redirect ''login'') \<and>
           login chk st1 lreq = Inr (st2, Redirect ''index'') \<and>
           Users (st_db st1) = Users (st_db st) @
             [\<lparr>u_UserID = next_UserID (st_db st), u_Username = uname, u_Email = mail,
               u_PasswordHash = gen pw, u_Role = ''Customer''\<rparr>] \<and>
           st_session st2 = Some (next_UserID (st_db st)) \<and>
           st_flashes st2 = st_flashes st @
             [(''Registration successful! Please log in.'', ''success''),
              (''Logged in successfully!'', ''success'')]"
proof -
  let ?new = "\<lparr>u_UserID = next_UserID (st_db st), u_Username = uname, u_Email = mail,
               u_PasswordHash = gen pw, u_Role = ''Customer''\<rparr>"
  let ?st1 = "flash ''Registration successful! Please log in.'' ''success''
            (st\<lparr>st_db := insert_user (st_db st) uname mail (gen pw) ''Customer''\<rparr>)"
  have users1: "Users (st_db ?st1) = Users (st_db st) @ [?new]"
    by (simp add: flash_def insert_user_def)
  from fresh have "\<forall>u\<in>set (Users (st_db st)). \<not> u_Email u = mail" by auto
  then have f: "fetchone (filter (\<lambda>u. u_Email u = mail) (Users (st_db ?st1))) = Some ?new"
    unfolding users1 by (rule fetchone_filter_append_new) simp
  have "login chk ?st1 lreq = Inr (flash ''Logged in successfully!'' ''success''
                      (?st1\<lparr>st_session := Some (next_UserID (st_db st))\<rparr>), Redirect ''index'')"
    unfolding login_post[OF l] f using hash by simp
  with register_post[OF r, of gen st] users1 show ?thesis
    by (simp add: flash_def)
qed

text \<open>
  On the sample data: bob registers with an email nobody has and logs in. Then he registers
  with the email alice has; the login reads the row of alice, refuses the password, and
  no session is bound.
\<close>

theorem register_then_login_witness:
  "\<exists>st1 st2.
     register (sample_generate_password_hash ''cd'') sample_state
       \<lparr>req_method = POST,
        req_form = [(''username'', ''bob''), (''email'', ''bob@example.org''),
                    (''password'', ''builder'')]\<rparr> = Inr (st1, Redirect ''login'') \<and>
     login sample_check_password_hash st1
       \<lparr>req_method = POST,
        req_form = [(''email'', ''bob@example.org''), (''password'', ''builder'')]\<rparr> =
       Inr (st2, Redirect ''index'') \<and>
     st_session st2 = Some 2"
proof -
  have h: "sample_check_password_hash (sample_generate_password_hash ''cd'' ''builder'') ''builder''"
    by (simp add: sample_defs)
  have f: "''bob@example.org'' \<notin> set (map u_Email (Users (st_db sample_state)))"
    by (simp add: sample_defs)
  have n: "next_UserID (st_db sample_state) = 2" by (simp add: sample_defs)
  from h f register_then_login[where chk = sample_check_password_hash
      and gen = "sample_generate_password_hash ''cd''" and pw = "''builder''"
      and mail = "''bob@example.org''" and st = sample_state and uname = "''bob''"
      and rreq = "\<lparr>req_method = POST,
        req_form = [(''username'', ''bob''), (''email'', ''bob@example.org''),
                    (''password'', ''builder'')]\<rparr>"
      and lreq = "\<lparr>req_method = POST,
        req_form = [(''email'', ''bob@example.org''), (''password'', ''builder'')]\<rparr>"]
  show ?thesis unfolding n by simp blast
qed

theorem register_then_login_counterexample:
  "sample_check_password_hash (sample_generate_password_hash ''cd'' ''builder'') ''builder'' \<and>
   register (sample_generate_password_hash ''cd'') sample_state
     \<lparr>req_method = POST,
      req_form = [(''username'', ''bob''), (''email'', ''alice@example.org''),
                  (''password'', ''builder'')]\<rparr> =
     Inr (\<lparr>st_db = sample_db
             \<lparr>Users := Users sample_db @
                 [\<lparr>u_UserID = 2, u_Username = ''bob'', u_Email = ''alice@example.org'',
                   u_PasswordHash = ''cd$builder'', u_Role = ''Customer''\<rparr>],
              next_UserID := 3\<rparr>,
           st_session = None,
           st_flashes = [(''Registration successful! Please log in.'', ''success'')]\<rparr>,
          Redirect ''login'') \<and>
   login sample_check_password_hash
     \<lparr>st_db = sample_db
         \<lparr>Users := Users sample_db @
             [\<lparr>u_UserID = 2, u_Username = ''bob'', u_Email = ''alice@example.org'',
               u_PasswordHash = ''cd$builder'', u_Role = ''Customer''\<rparr>],
          next_UserID := 3\<rparr>,
      st_session = None,
      st_flashes = [(''Registration successful! Please log in.'', ''success'')]\<rparr>
     \<lparr>req_method = POST,
      req_form = [(''email'', ''alice@example.org''), (''password'', ''builder'')]\<rparr> =
     Inr (\<lparr>st_db = sample_db
             \<lparr>Users := Users sample_db @
                 [\<lparr>u_UserID = 2, u_Username = ''bob'', u_Email = ''alice@example.org'',
                   u_PasswordHash = ''cd$builder'', u_Role = ''Customer''\<rparr>],
              next_UserID := 3\<rparr>,
           st_session = None,
           st_flashes = [(''Registration successful! Please log in.'', ''success''),
                         (''Invalid email or password'', ''danger'')]\<rparr>,
          Render ''login.html'' ())"
  by (simp add: sample_defs register_def login_def form_item_def insert_user_def flash_def
      fetchone_def)

text \<open>
  Claim C2. A login whose email matches no row of Users, or whose password the hash
  check of the fetched row refuses, leaves the session as it was, adds the one message
  "Invalid email or password" (category "danger") in both cases, and renders the login
  form again.
\<close>

theorem login_failure:
  assumes "req_method req = POST"
    and "map_of (req_form req) ''email'' = Some mail"
    and "map_of (req_form req) ''password'' = Some pw"
    and "mail \<notin> set (map u_Email (Users (st_db st))) \<or>
         (\<exists>row. fetchone (filter (\<lambda>u. u_Email u = mail) (Users (st_db st))) = Some row \<and>
                \<not> chk (u_PasswordHash row) pw)"
  shows "login chk st req =
           Inr (st\<lparr>st_flashes := st_flashes st @ [(''Invalid email or password'', ''danger'')]\<rparr>,
                Render ''login.html'' ())"
proof -
  from assms(4) show ?thesis
  proof
    assume "mail \<notin> set (map u_Email (Users (st_db st)))"
    then have "fetchone (filter (\<lambda>u. u_Email u = mail) (Users (st_db st))) = None"
      by (auto simp: fetchone_filter_None)
    then show ?thesis by (simp add: login_post[OF assms(1-3)] flash_def)
  next
    assume "\<exists>row. fetchone (filter (\<lambda>u. u_Email u = mail) (Users (st_db st))) = Some row \<and>
                \<not> chk (u_PasswordHash row) pw"
    then show ?thesis by (auto simp: login_post[OF assms(1-3)] flash_def)
  qed
qed

theorem login_failure_witness:
  "login sample_check_password_hash sample_state
     \<lparr>req_method = POST,
      req_form = [(''email'', ''alice@example.org''), (''password'', ''looking-glass'')]\<rparr> =
     Inr (sample_state\<lparr>st_flashes := [(''Invalid email or password'', ''danger'')]\<rparr>,
          Render ''login.html'' ()) \<and>
   login sample_check_password_hash sample_state
     \<lparr>req_method = POST,
      req_form = [(''email'', ''carol@example.org''), (''password'', ''wonderland'')]\<rparr> =
     Inr (sample_state\<lparr>st_flashes := [(''Invalid email or password'', ''danger'')]\<rparr>,
          Render ''login.html'' ())"
proof -
  have wrong: "\<exists>row. fetchone (filter (\<lambda>u. u_Email u = ''alice@example.org'')
                        (Users (st_db sample_state))) = Some row \<and>
                \<not> sample_check_password_hash (u_PasswordHash row) ''looking-glass''"
    by (simp add: sample_defs fetchone_def)
  have unknown: "''carol@example.org'' \<notin> set (map u_Email (Users (st_db sample_state)))"
    by (simp add: sample_defs)
  have e: "st_flashes sample_state = []" by (simp add: sample_defs)
  from login_failure[of "\<lparr>req_method = POST,
      req_form = [(''email'', ''alice@example.org''), (''password'', ''looking-glass'')]\<rparr>"
      "''alice@example.org''" "''looking-glass''" sample_state sample_check_password_hash]
    login_failure[of "\<lparr>req_method = POST,
      req_form = [(''email'', ''carol@example.org''), (''password'', ''wonderland'')]\<rparr>"
      "''carol@example.org''" "''wonderland''" sample_state sample_check_password_hash]
    wrong unknown
  show ?thesis by (simp add: e)
qed

text \<open>
  Claim C9. \<^verbatim>\<open>load_user\<close> reads the Users table on every call. For an id that a row of
  the table has, it returns the user made of that id and of the name, email and role of a
  row with the id, and a view behind \<^verbatim>\<open>login_required\<close> runs. For an id that no row has
  (a deleted user, say) it returns no user, and a request whose session holds the id is
  answered as an unauthenticated one: Flask-Login flashes "Please log in to access this
  page." and redirects to the login page.
\<close>

theorem load_user_resolves:
  "(uid \<notin> set (map u_UserID (Users (st_db st))) \<longrightarrow>
      load_user (st_db st) uid = None \<and>
      (st_session st = Some uid \<longrightarrow>
         current_user st = None \<and>
         login_required st view =
           Inr (st\<lparr>st_flashes := st_flashes st @
                      [(''Please log in to access this page.'', ''message'')]\<rparr>,
                Redirect ''login''))) \<and>
   (uid \<in> set (map u_UserID (Users (st_db st))) \<longrightarrow>
      (\<exists>row\<in>set (Users (st_db st)). u_UserID row = uid \<and>
         load_user (st_db st) uid = Some \<lparr>user_id = uid, username = u_Username row,
                                         email = u_Email row, role = u_Role row\<rparr> \<and>
         (st_session st = Some uid \<longrightarrow>
            current_user st = Some \<lparr>user_id = uid, username = u_Username row,
                                    email = u_Email row, role = u_Role row\<rparr> \<and>
            login_required st view = view)))"
proof (intro conjI impI)
  assume "uid \<notin> set (map u_UserID (Users (st_db st)))"
  then have "fetchone (filter (\<lambda>u. u_UserID u = uid) (Users (st_db st))) = None"
    by (auto simp: fetchone_filter_None)
  then show none: "load_user (st_db st) uid = None" by (simp add: load_user_def)
  assume "st_session st = Some uid"
  with none show "current_user st = None" by (simp add: current_user_def)
  then show "login_required st view =
           Inr (st\<lparr>st_flashes := st_flashes st @
                      [(''Please log in to access this page.'', ''message'')]\<rparr>,
                Redirect ''login'')"
    by (simp add: login_required_def unauthorized_def flash_def)
next
  assume "uid \<in> set (map u_UserID (Users (st_db st)))"
  then have "fetchone (filter (\<lambda>u. u_UserID u = uid) (Users (st_db st))) \<noteq> None"
    by (auto simp: fetchone_filter_None)
  then obtain row where
    row: "fetchone (filter (\<lambda>u. u_UserID u = uid) (Users (st_db st))) = Some row"
    by auto
  let ?user = "\<lparr>user_id = uid, username = u_Username row, email = u_Email row,
                role = u_Role row\<rparr>"
  from fetchone_filter_Some[OF row] have r: "row \<in> set (Users (st_db st))" "u_UserID row = uid"
    by simp_all
  with row have l: "load_user (st_db st) uid = Some ?user" by (simp add: load_user_def)
  then have "st_session st = Some uid \<longrightarrow>
      current_user st = Some ?user \<and> login_required st view = view"
    by (simp add: current_user_def login_required_def)
  with r l show "\<exists>row\<in>set (Users (st_db st)). u_UserID row = uid \<and>
         load_user (st_db st) uid = Some \<lparr>user_id = uid, username = u_Username row,
                                         email = u_Email row, role = u_Role row\<rparr> \<and>
         (st_session st = Some uid \<longrightarrow>
            current_user st = Some \<lparr>user_id = uid, username = u_Username row,
                                    email = u_Email row, role = u_Role row\<rparr> \<and>
            login_required st view = view)"
    by blast
qed

theorem load_user_resolves_witness:
  "load_user sample_db 1 =
     Some \<lparr>user_id = 1, username = ''alice'', email = ''alice@example.org'',
           role = ''Customer''\<rparr> \<and>
   index_view (sample_state\<lparr>st_session := Some 1\<rparr>) =
     Inr (sample_state\<lparr>st_session := Some 1\<rparr>, Render ''base.html'' ()) \<and>
   load_user sample_db 7 = None \<and>
   index_view (sample_state\<lparr>st_session := Some 7\<rparr>) =
     Inr (sample_state\<lparr>st_session := Some 7,
            st_flashes := [(''Please log in to access this page.'', ''message'')]\<rparr>,
          Redirect ''login'')"
proof -
  let ?s1 = "sample_state\<lparr>st_session := Some 1\<rparr>"
  let ?s7 = "sample_state\<lparr>st_session := Some 7\<rparr>"
  have a: "7 \<notin> set (map u_UserID (Users (st_db ?s7)))" "st_session ?s7 = Some 7"
    and b: "1 \<in> set (map u_UserID (Users (st_db ?s1)))" "st_session ?s1 = Some 1"
    by (simp_all add: sample_defs)
  have d: "st_db ?s1 = sample_db" "st_db ?s7 = sample_db" "st_flashes ?s7 = []"
    by (simp_all add: sample_defs)
  have u: "Users sample_db = [\<lparr>u_UserID = 1, u_Username = ''alice'', u_Email = ''alice@example.org'',
                 u_PasswordHash = ''ab$wonderland'', u_Role = ''Customer''\<rparr>]"
    by (simp add: sample_defs)
  from load_user_resolves[of 7 ?s7 "index ?s7"] a
  have "load_user sample_db 7 = None \<and>
        index_view ?s7 =
          Inr (?s7\<lparr>st_flashes := [(''Please log in to access this page.'', ''message'')]\<rparr>,
               Redirect ''login'')"
    unfolding d index_view_def by simp
  moreover from load_user_resolves[of 1 ?s1 "index ?s1"] b
  have "load_user sample_db 1 =
     Some \<lparr>user_id = 1, username = ''alice'', email = ''alice@example.org'',
           role = ''Customer''\<rparr> \<and> index_view ?s1 = index ?s1"
    unfolding d u index_view_def by simp
  ultimately show ?thesis by (simp add: index_def)
qed

section \<open>Menu items\<close>








text \<open>
  Claim C8. \<^verbatim>\<open>menu_delete\<close> always answers with the redirect to the menu list and the
  message "Menu item deleted.". It keeps exactly the rows with another id: when no row has
  the id the database is unchanged, and when ids are distinct and a row has the id, that
  one row is gone.
\<close>

theorem menu_delete_removes:
  "\<exists>st'. menu_delete i st = Inr (st', Redirect ''menu_list'') \<and>
      st' = st\<lparr>st_db := (st_db st)\<lparr>MenuItems :=
                    filter (\<lambda>m. m_MenuItemID m \<noteq> i) (MenuItems (st_db st))\<rparr>,
                st_flashes := st_flashes st @ [(''Menu item deleted.'', ''info'')]\<rparr> \<and>
      (i \<notin> set (map m_MenuItemID (MenuItems (st_db st))) \<longrightarrow> st_db st' = st_db st) \<and>
      (\<forall>m\<in>set (MenuItems (st_db st)).
          m_MenuItemID m = i \<longrightarrow> distinct (map m_MenuItemID (MenuItems (st_db st))) \<longrightarrow>
          mset (MenuItems (st_db st)) = add_mset m (mset (MenuItems (st_db st'))))"
proof -
  define st' where "st' = st\<lparr>st_db := (st_db st)\<lparr>MenuItems :=
                    filter (\<lambda>m. m_MenuItemID m \<noteq> i) (MenuItems (st_db st))\<rparr>,
                st_flashes := st_flashes st @ [(''Menu item deleted.'', ''info'')]\<rparr>"
  have run: "menu_delete i st = Inr (st', Redirect ''menu_list'')"
    by (simp add: menu_delete_def delete_menuitem_def flash_def st'_def)
  have items: "MenuItems (st_db st') = filter (\<lambda>m. m_MenuItemID m \<noteq> i) (MenuItems (st_db st))"
    by (simp add: st'_def)
  have noop: "st_db st' = st_db st" if "i \<notin> set (map m_MenuItemID (MenuItems (st_db st)))"
    using filter_absent_key[OF that] by (simp add: st'_def)
  have gone: "mset (MenuItems (st_db st)) = add_mset m (mset (MenuItems (st_db st')))"
    if "m \<in> set (MenuItems (st_db st))" "m_MenuItemID m = i"
       "distinct (map m_MenuItemID (MenuItems (st_db st)))" for m
    unfolding items using that(3,1,2) by (rule mset_remove_key)
  from run noop gone show ?thesis unfolding st'_def[symmetric] by blast
qed

theorem menu_delete_removes_witness:
  "(\<exists>st'. menu_delete 99 sample_state = Inr (st', Redirect ''menu_list'') \<and>
      st_db st' = sample_db) \<and>
   (\<exists>st'. menu_delete 2 sample_state = Inr (st', Redirect ''menu_list'') \<and>
      mset (MenuItems sample_db) =
        add_mset \<lparr>m_MenuItemID = 2, m_Name = ''Cola'', m_CategoryID = 2, m_Price = 5 / 2,
                  m_Active = True\<rparr> (mset (MenuItems (st_db st'))))"
proof -
  let ?cola = "\<lparr>m_MenuItemID = 2, m_Name = ''Cola'', m_CategoryID = 2, m_Price = 5 / 2,
                  m_Active = True\<rparr>"
  have absent: "99 \<notin> set (map m_MenuItemID (MenuItems (st_db sample_state)))"
    by (simp add: sample_defs)
  have d: "st_db sample_state = sample_db" by (simp add: sample_defs)
  have cola: "?cola \<in> set (MenuItems (st_db sample_state))" "m_MenuItemID ?cola = 2"
    and dist: "distinct (map m_MenuItemID (MenuItems (st_db sample_state)))"
    by (simp_all add: sample_defs)
  from menu_delete_removes[of 99 sample_state] absent
  have a: "\<exists>st'. menu_delete 99 sample_state = Inr (st', Redirect ''menu_list'') \<and>
      st_db st' = st_db sample_state"
    by blast
  from menu_delete_removes[of 2 sample_state]
  obtain st' where run: "menu_delete 2 sample_state = Inr (st', Redirect ''menu_list'')"
    and gone: "\<forall>m\<in>set (MenuItems (st_db sample_state)).
          m_MenuItemID m = 2 \<longrightarrow> distinct (map m_MenuItemID (MenuItems (st_db sample_state))) \<longrightarrow>
          mset (MenuItems (st_db sample_state)) = add_mset m (mset (MenuItems (st_db st')))"
    by blast
  from gone cola dist
  have "mset (MenuItems (st_db sample_state)) = add_mset ?cola (mset (MenuItems (st_db st')))"
    by blast
  with run a show ?thesis unfolding d by blast
qed



section \<open>Analytics\<close>

text \<open>
  Claim C4. The top items are at most five rows, in non-increasing order of revenue,
  with distinct names; each row holds an item name of the join of OrderDetails with
  MenuItems and the sum of quantity times unit price over the joined rows of that name; no
  group left out has more revenue than a row shown. The view gets the names and the
  revenues as two lists.
\<close>

theorem analytics_top_items:
  "length (top_rows d) \<le> 5 \<and>
   length (top_rows d) = min 5 (card ((\<lambda>r. m_Name (snd r)) ` set (order_items d))) \<and>
   sorted_wrt (\<lambda>a b. snd b \<le> snd a) (top_rows d) \<and>
   distinct (map fst (top_rows d)) \<and>
   (\<forall>r\<in>set (top_rows d).
      fst r \<in> (\<lambda>r. m_Name (snd r)) ` set (order_items d) \<and>
      snd r = sum_list (map (\<lambda>x. of_int (od_Quantity (fst x)) * od_UnitPrice (fst x))
                 (filter (\<lambda>x. m_Name (snd x) = fst r) (order_items d)))) \<and>
   (\<forall>g\<in>set (item_revenue_groups d). g \<notin> set (top_rows d) \<longrightarrow>
      (\<forall>r\<in>set (top_rows d). snd g \<le> snd r)) \<and>
   set (order_items d) =
     {(od, mi). od \<in> set (OrderDetails d) \<and> mi \<in> set (MenuItems d) \<and>
                od_MenuItemID od = m_MenuItemID mi} \<and>
   (\<exists>ch. analytics str float st = Inr (st, Render ''analytics.html'' ch) \<and>
         item_names ch = map fst (top_rows (st_db st)) \<and>
         item_revenues ch = map (\<lambda>r. float (snd r)) (top_rows (st_db st)))"
proof (intro conjI)
  show "length (top_rows d) \<le> 5" by (simp add: top_rows_def)
  have "length (item_revenue_groups d) = length (map fst (item_revenue_groups d))" by simp
  also have "\<dots> = card ((\<lambda>r. m_Name (snd r)) ` set (order_items d))"
    unfolding item_revenue_groups_def map_fst_group_by_sum
    by (simp add: length_remdups_card_conv)
  finally show "length (top_rows d) = min 5 (card ((\<lambda>r. m_Name (snd r)) ` set (order_items d)))"
    by (simp add: top_rows_def order_by_def min.commute)
  show "sorted_wrt (\<lambda>a b. snd b \<le> snd a) (top_rows d)" by (rule top_rows_sorted)
  have "distinct (map fst (order_by (\<lambda>r. - snd r) (item_revenue_groups d)))"
    unfolding order_by_def item_revenue_groups_def
    by (simp add: distinct_map distinct_map_fst_group_by_sum[unfolded distinct_map])
  then show "distinct (map fst (top_rows d))"
    unfolding top_rows_def take_map[symmetric] by (rule distinct_take)
  show "\<forall>r\<in>set (top_rows d).
      fst r \<in> (\<lambda>r. m_Name (snd r)) ` set (order_items d) \<and>
      snd r = sum_list (map (\<lambda>x. of_int (od_Quantity (fst x)) * od_UnitPrice (fst x))
                 (filter (\<lambda>x. m_Name (snd x) = fst r) (order_items d)))"
  proof
    fix r assume "r \<in> set (top_rows d)"
    with top_rows_subset have "r \<in> set (item_revenue_groups d)" by blast
    then show "fst r \<in> (\<lambda>r. m_Name (snd r)) ` set (order_items d) \<and>
      snd r = sum_list (map (\<lambda>x. of_int (od_Quantity (fst x)) * od_UnitPrice (fst x))
                 (filter (\<lambda>x. m_Name (snd x) = fst r) (order_items d)))"
      unfolding item_revenue_groups_def set_group_by_sum line_revenue_def
      by force
  qed
  show "\<forall>g\<in>set (item_revenue_groups d). g \<notin> set (top_rows d) \<longrightarrow>
      (\<forall>r\<in>set (top_rows d). snd g \<le> snd r)"
    using top_rows_best by blast
  show "set (order_items d) =
     {(od, mi). od \<in> set (OrderDetails d) \<and> mi \<in> set (MenuItems d) \<and>
                od_MenuItemID od = m_MenuItemID mi}"
    by (simp add: order_items_def set_join_on)
  show "\<exists>ch. analytics str float st = Inr (st, Render ''analytics.html'' ch) \<and>
         item_names ch = map fst (top_rows (st_db st)) \<and>
         item_revenues ch = map (\<lambda>r. float (snd r)) (top_rows (st_db st))"
    by (simp add: analytics_def)
qed

theorem analytics_top_items_witness:
  "top_rows sample_db = [(''Pizza'', 24), (''Cola'', 15 / 2)] \<and>
   length (top_rows sample_db) \<le> 5 \<and>
   sorted_wrt (\<lambda>a b. snd b \<le> snd a) (top_rows sample_db) \<and>
   (\<exists>ch. analytics (\<lambda>d. ''day'') (\<lambda>x. x) sample_state =
            Inr (sample_state, Render ''analytics.html'' ch) \<and>
         item_names ch = [''Pizza'', ''Cola''] \<and> item_revenues ch = [24, 15 / 2])"
proof -
  have d: "st_db sample_state = sample_db" by (simp add: sample_state_def)
  from analytics_top_items[of sample_db "\<lambda>d. ''day''" "\<lambda>x. x" sample_state]
  have "length (top_rows sample_db) \<le> 5"
    and "sorted_wrt (\<lambda>a b. snd b \<le> snd a) (top_rows sample_db)"
    and "\<exists>ch. analytics (\<lambda>d. ''day'') (\<lambda>x. x) sample_state =
            Inr (sample_state, Render ''analytics.html'' ch) \<and>
          item_names ch = map fst (top_rows (st_db sample_state)) \<and>
          item_revenues ch = map (\<lambda>r. snd r) (top_rows (st_db sample_state))"
    by blast+
  then show ?thesis unfolding d by (simp add: sample_top_rows)
qed

text \<open>
  Claim C5. The daily revenue has one row for each distinct date of an order, in
  ascending order of date, holding the sum of the total amounts of the orders of that
  date. The view gets dates and revenues as two lists, both as long as there are distinct
  order dates.
\<close>

theorem analytics_daily_revenue:
  "revenue_rows d =
     map (\<lambda>dt. (dt, sum_list (map o_TotalAmount
                        (filter (\<lambda>ord. dt_date (o_OrderTime ord) = dt) (Orders d)))))
         (sorted_list_of_set ((\<lambda>ord. dt_date (o_OrderTime ord)) ` set (Orders d))) \<and>
   sorted (map fst (revenue_rows d)) \<and> distinct (map fst (revenue_rows d)) \<and>
   set (map fst (revenue_rows d)) = (\<lambda>ord. dt_date (o_OrderTime ord)) ` set (Orders d) \<and>
   (\<exists>ch. analytics str float st = Inr (st, Render ''analytics.html'' ch) \<and>
         dates ch = map (\<lambda>r. str (fst r)) (revenue_rows (st_db st)) \<and>
         revenues ch = map (\<lambda>r. float (snd r)) (revenue_rows (st_db st)) \<and>
         length (dates ch) = card ((\<lambda>ord. dt_date (o_OrderTime ord)) ` set (Orders (st_db st))) \<and>
         length (revenues ch) = card ((\<lambda>ord. dt_date (o_OrderTime ord)) ` set (Orders (st_db st))))"
proof -
  let ?D = "\<lambda>d. (\<lambda>ord. dt_date (o_OrderTime ord)) ` set (Orders d)"
  have fin: "finite (?D d)" for d by simp
  have keys: "map fst (revenue_rows d) = sorted_list_of_set (?D d)" for d
    unfolding revenue_rows_eq by (simp add: comp_def)
  have len: "length (revenue_rows d) = card (?D d)" for d
    using arg_cong[OF keys[of d], of length] by simp
  have "\<exists>ch. analytics str float st = Inr (st, Render ''analytics.html'' ch) \<and>
         dates ch = map (\<lambda>r. str (fst r)) (revenue_rows (st_db st)) \<and>
         revenues ch = map (\<lambda>r. float (snd r)) (revenue_rows (st_db st)) \<and>
         length (dates ch) = card (?D (st_db st)) \<and>
         length (revenues ch) = card (?D (st_db st))"
    by (simp add: analytics_def len)
  moreover have "sorted (map fst (revenue_rows d))" "distinct (map fst (revenue_rows d))"
    "set (map fst (revenue_rows d)) = ?D d"
    unfolding keys using fin[of d] by simp_all
  ultimately show ?thesis using revenue_rows_eq[of d] by blast
qed

theorem analytics_daily_revenue_witness:
  "revenue_rows sample_db = [(19, 12), (20, 39 / 2)] \<and>
   card ((\<lambda>ord. dt_date (o_OrderTime ord)) ` set (Orders sample_db)) = 2 \<and>
   (\<exists>ch. analytics (\<lambda>d. ''day'') (\<lambda>x. x) sample_state =
            Inr (sample_state, Render ''analytics.html'' ch) \<and>
         length (dates ch) = 2 \<and> revenues ch = [12, 39 / 2])"
proof -
  have d: "st_db sample_state = sample_db" by (simp add: sample_state_def)
  from analytics_daily_revenue[of sample_db "\<lambda>d. ''day''" "\<lambda>x. x" sample_state]
  obtain ch where run: "analytics (\<lambda>d. ''day'') (\<lambda>x. x) sample_state =
            Inr (sample_state, Render ''analytics.html'' ch)"
    and ds: "dates ch = map (\<lambda>r. ''day'') (revenue_rows (st_db sample_state))"
    and rs: "revenues ch = map (\<lambda>r. snd r) (revenue_rows (st_db sample_state))"
    and n: "length (dates ch) =
             card ((\<lambda>ord. dt_date (o_OrderTime ord)) ` set (Orders (st_db sample_state)))"
    by blast
  from ds have l: "length (dates ch) = 2" unfolding d by (simp add: sample_revenue_rows)
  with n have "card ((\<lambda>ord. dt_date (o_OrderTime ord)) ` set (Orders sample_db)) = 2"
    unfolding d by simp
  moreover from rs have "revenues ch = [12, 39 / 2]"
    unfolding d by (simp add: sample_revenue_rows)
  ultimately show ?thesis using run l sample_revenue_rows by blast
qed

end
